theory Spec2Isabelle
  imports Main "HOL-Library.Word" "HOL-Library.Sublist"
begin

unbundle bit_operations_syntax

section \<open>JavaScript strings and numbers\<close>

text \<open>
  Strings are lists of characters, a character standing for a code unit below 256.
  The functions of this section are the methods of
  \<^verbatim>\<open>String\<close> and \<^verbatim>\<open>Number\<close> that \<^verbatim>\<open>src/utils.ts\<close> and
  \<^verbatim>\<open>src/index.ts\<close> call, each under the name of the method it stands for.
\<close>

type_synonym byte = "8 word"

text \<open>\<^verbatim>\<open>s.padStart(n, c)\<close> for a one-character filler.\<close>

definition padStart :: "nat \<Rightarrow> char \<Rightarrow> string \<Rightarrow> string" where
  "padStart n c s = replicate (n - length s) c @ s"

definition digit_char :: "nat \<Rightarrow> char" where
  "digit_char d = ''0123456789abcdef'' ! d"

text \<open>\<^verbatim>\<open>n.toString()\<close> and \<^verbatim>\<open>n.toString(16)\<close> of a non-negative integer.\<close>

function toString10 :: "nat \<Rightarrow> string" where
  "toString10 n = (if n < 10 then [digit_char n] else toString10 (n div 10) @ [digit_char (n mod 10)])"
  by pat_completeness auto
termination
  by (relation "measure id") auto

function toString16 :: "nat \<Rightarrow> string" where
  "toString16 n = (if n < 16 then [digit_char n] else toString16 (n div 16) @ [digit_char (n mod 16)])"
  by pat_completeness auto
termination
  by (relation "measure id") auto

declare toString10.simps [simp del] toString16.simps [simp del]

text \<open>\<^verbatim>\<open>n.toString()\<close> of an integer: a minus sign before the digits of a negative one.\<close>

definition int_toString :: "int \<Rightarrow> string" where
  "int_toString i = (if i < 0 then CHR ''-'' # toString10 (nat (- i)) else toString10 (nat i))"

text \<open>\<^verbatim>\<open>s.lastIndexOf(c)\<close>; \<open>None\<close> is the result \<^verbatim>\<open>-1\<close>.\<close>

fun lastIndexOf :: "char \<Rightarrow> string \<Rightarrow> nat option" where
  "lastIndexOf c [] = None"
| "lastIndexOf c (x # xs) =
     (case lastIndexOf c xs of
        Some i \<Rightarrow> Some (Suc i)
      | None \<Rightarrow> if x = c then Some 0 else None)"

text \<open>\<^verbatim>\<open>s.split(c)\<close> for a one-character separator: never the empty array.\<close>

fun split :: "char \<Rightarrow> string \<Rightarrow> string list" where
  "split c [] = [[]]"
| "split c (x # xs) =
     (if x = c then [] # split c xs
      else (case split c xs of
              seg # segs \<Rightarrow> (x # seg) # segs
            | [] \<Rightarrow> [[x]]))"

text \<open>\<^verbatim>\<open>a.pop()\<close>, for its value: \<open>None\<close> is \<^verbatim>\<open>undefined\<close>, on the empty array.\<close>

definition pop :: "'a list \<Rightarrow> 'a option" where
  "pop a = (if a = [] then None else Some (last a))"

text \<open>
  White space and line terminators that \<^verbatim>\<open>trim\<close> removes, among the characters
  below 256: TAB, LF, VT, FF, CR, space and the no-break space.
\<close>

definition is_space :: "char \<Rightarrow> bool" where
  "is_space c = ((of_char c :: nat) \<in> {9, 10, 11, 12, 13, 32, 160})"

definition trim :: "string \<Rightarrow> string" where
  "trim s = rev (dropWhile is_space (rev (dropWhile is_space s)))"

section \<open>The entropy source\<close>

text \<open>
  \<^verbatim>\<open>crypto.getRandomValues\<close> is a call to the platform. The model reads the bytes it
  delivers from a stream of bytes yet to come, and hands back the rest of the stream.
  The Web Crypto API raises \<^verbatim>\<open>QuotaExceededError\<close> when the array is longer than
  65536 bytes; that is the one error of this call.
\<close>

type_synonym entropy = "nat \<Rightarrow> byte"

datatype js_error = QuotaExceededError | Thrown string

definition getRandomValues :: "nat \<Rightarrow> entropy \<Rightarrow> js_error + (byte list \<times> entropy)" where
  "getRandomValues k rs =
     (if 65536 < k then Inl QuotaExceededError
      else Inr (map rs [0..<k], \<lambda>i. rs (i + k)))"

text \<open>\<^verbatim>\<open>b.toString(16).padStart(2, "0")\<close> of every byte, joined.\<close>

definition hex_of_bytes :: "byte list \<Rightarrow> string" where
  "hex_of_bytes bs = concat (map (\<lambda>b. padStart 2 (CHR ''0'') (toString16 (unat b))) bs)"

text \<open>
  \<^verbatim>\<open>generateRandomHex(length)\<close> of \<^verbatim>\<open>src/utils.ts\<close>:
  \<^verbatim>\<open>Math.ceil(length / 2)\<close> bytes are drawn, printed as two digits each, and the
  string is cut to \<^verbatim>\<open>length\<close> characters. The allocation of the array is taken
  to succeed; a length too large to allocate is above the quota, where the call throws
  here as well.
\<close>

definition generateRandomHex :: "nat \<Rightarrow> entropy \<Rightarrow> js_error + (string \<times> entropy)" where
  "generateRandomHex len rs =
     (case getRandomValues ((len + 1) div 2) rs of
        Inl e \<Rightarrow> Inl e
      | Inr (array, rs') \<Rightarrow> Inr (take len (hex_of_bytes array), rs'))"

definition is_lower_hex :: "char \<Rightarrow> bool" where
  "is_lower_hex c = (c \<in> set ''0123456789abcdef'')"

section \<open>Global replacement\<close>

text \<open>
  \<^verbatim>\<open>GetSubstitution\<close> of ECMAScript, which \<^verbatim>\<open>replace\<close> applies to a replacement
  given as a string: \<^verbatim>\<open>$$\<close> is a dollar sign, \<^verbatim>\<open>$&\<close> the matched text,
  \<^verbatim>\<open>$`\<close> the subject before the match and \<^verbatim>\<open>$'\<close> the subject after it. The
  patterns of \<^verbatim>\<open>parsePath\<close> have no capture group, so every other \<^verbatim>\<open>$\<close>
  stands for itself.
\<close>

fun getSubstitution :: "string \<Rightarrow> string \<Rightarrow> string \<Rightarrow> string \<Rightarrow> string" where
  "getSubstitution matched preceding following (c # d # t) =
     (if c = CHR ''$'' \<and> d = CHR ''$'' then CHR ''$'' # getSubstitution matched preceding following t
      else if c = CHR ''$'' \<and> d = CHR ''&'' then matched @ getSubstitution matched preceding following t
      else if c = CHR ''$'' \<and> d = CHR 0x60 then preceding @ getSubstitution matched preceding following t
      else if c = CHR ''$'' \<and> d = CHR 0x27 then following @ getSubstitution matched preceding following t
      else c # getSubstitution matched preceding following (d # t))"
| "getSubstitution matched preceding following t = t"

text \<open>
  \<^verbatim>\<open>s.replace(/pat/g, repl)\<close> for a pattern that is a literal, non-empty text, as
  all patterns of \<^verbatim>\<open>parsePath\<close> are: the subject is scanned from the left, and
  the scan goes on after each match. \<open>preceding\<close> is the part of the subject already
  scanned.
\<close>

function replace_from :: "string \<Rightarrow> string \<Rightarrow> string \<Rightarrow> string \<Rightarrow> string" where
  "replace_from pat repl preceding [] = []"
| "replace_from pat repl preceding (c # cs) =
     (if pat \<noteq> [] \<and> prefix pat (c # cs)
      then getSubstitution pat preceding (drop (length pat) (c # cs)) repl
             @ replace_from pat repl (preceding @ pat) (drop (length pat) (c # cs))
      else c # replace_from pat repl (preceding @ [c]) cs)"
  by pat_completeness auto
termination
  by (relation "measure (\<lambda>(pat, repl, preceding, s). length s)") auto

definition replace :: "string \<Rightarrow> string \<Rightarrow> string \<Rightarrow> string" where
  "replace pat repl s = replace_from pat repl [] s"

text \<open>
  \<^verbatim>\<open>s.replace(/pat/g, () => f())\<close>: the callback runs once for each match, from the
  left, and its result is inserted as it is. The callback reads a state and may throw.
\<close>

function replace_fn :: "string \<Rightarrow> ('s \<Rightarrow> js_error + (string \<times> 's)) \<Rightarrow> string \<Rightarrow> 's
    \<Rightarrow> js_error + (string \<times> 's)" where
  "replace_fn pat f [] st = Inr ([], st)"
| "replace_fn pat f (c # cs) st =
     (if pat \<noteq> [] \<and> prefix pat (c # cs)
      then (case f st of
              Inl e \<Rightarrow> Inl e
            | Inr (r, st') \<Rightarrow>
                (case replace_fn pat f (drop (length pat) (c # cs)) st' of
                   Inl e \<Rightarrow> Inl e
                 | Inr (t, st'') \<Rightarrow> Inr (r @ t, st'')))
      else (case replace_fn pat f cs st of
              Inl e \<Rightarrow> Inl e
            | Inr (t, st') \<Rightarrow> Inr (c # t, st')))"
  by pat_completeness auto
termination
  by (relation "measure (\<lambda>(pat, f, s, st). length s)") auto

section \<open>Path generation: \<^verbatim>\<open>parsePath\<close>\<close>

text \<open>
  \<^verbatim>\<open>crypto.randomUUID()\<close>, a call to the platform: a version 4 UUID of 16 fresh
  bytes, the version and variant bits set, printed in the groups 8-4-4-4-12.
\<close>

definition randomUUID :: "entropy \<Rightarrow> js_error + (string \<times> entropy)" where
  "randomUUID rs =
     (case getRandomValues 16 rs of
        Inl e \<Rightarrow> Inl e
      | Inr (b, rs') \<Rightarrow>
          (let v = b[6 := (b ! 6 AND 0x0f) OR 0x40, 8 := (b ! 8 AND 0x3f) OR 0x80];
               h = hex_of_bytes v
           in Inr (take 8 h @ ''-'' @ take 4 (drop 8 h) @ ''-'' @ take 4 (drop 12 h) @ ''-''
                     @ take 4 (drop 16 h) @ ''-'' @ drop 20 h, rs')))"

text \<open>
  What \<^verbatim>\<open>new Date()\<close> answers to the getters \<^verbatim>\<open>parsePath\<close> calls.
  \<^verbatim>\<open>getTime() * 1000000\<close> is a product of doubles beyond the exact integers; its
  rendering is taken as the clock gives it, in \<open>nanoString\<close>.
\<close>

record date =
  getFullYear :: int
  getMonth :: nat
  getDate :: nat
  getHours :: nat
  getMinutes :: nat
  getSeconds :: nat
  getTime :: int
  nanoString :: string

text \<open>The class \<^verbatim>\<open>[a-zA-Z0-9._-]\<close>.\<close>

definition safe_char :: "char \<Rightarrow> bool" where
  "safe_char c =
     (let n = (of_char c :: nat)
      in (97 \<le> n \<and> n \<le> 122) \<or> (65 \<le> n \<and> n \<le> 90) \<or> (48 \<le> n \<and> n \<le> 57)
         \<or> c = CHR ''.'' \<or> c = CHR ''_'' \<or> c = CHR ''-'')"

text \<open>Lines 416-417: the extension, from the last dot of the file name as it came.\<close>

definition extension :: "string \<Rightarrow> string" where
  "extension filename =
     (case lastIndexOf (CHR ''.'') filename of None \<Rightarrow> [] | Some extIndex \<Rightarrow> drop extIndex filename)"

text \<open>
  Line 422: \<^verbatim>\<open>filename.split("/").pop()?.split("\\").pop() || filename\<close>. The file
  name itself stands in when the last segment is \<^verbatim>\<open>undefined\<close> or empty.
\<close>

definition last_segment :: "string \<Rightarrow> string" where
  "last_segment filename =
     (case (case pop (split (CHR ''/'') filename) of
              None \<Rightarrow> None
            | Some s \<Rightarrow> pop (split (CHR 0x5C) s)) of
        None \<Rightarrow> filename
      | Some s \<Rightarrow> if s = [] then filename else s)"

text \<open>
  The specification's reading of line 422, for comparison: the final segment of the
  file name, what follows its last forward or back slash.
\<close>

definition final_segment :: "string \<Rightarrow> string" where
  "final_segment filename = rev (takeWhile (\<lambda>c. c \<noteq> CHR ''/'' \<and> c \<noteq> CHR 0x5C) (rev filename))"

text \<open>Line 423: every character outside the class becomes an underscore.\<close>

definition safeFilename :: "string \<Rightarrow> string" where
  "safeFilename filename = map (\<lambda>c. if safe_char c then c else CHR ''_'') (last_segment filename)"

text \<open>
  Lines 426-429. \<^verbatim>\<open>substring(0, -1)\<close> is the empty string: that is the value when
  the file name has a dot and the safe name has none.
\<close>

definition originNameWithoutExt :: "string \<Rightarrow> string" where
  "originNameWithoutExt filename =
     (case lastIndexOf (CHR ''.'') filename of
        None \<Rightarrow> safeFilename filename
      | Some extIndex \<Rightarrow>
          (case lastIndexOf (CHR ''.'') (safeFilename filename) of
             None \<Rightarrow> []
           | Some i \<Rightarrow> take i (safeFilename filename)))"

text \<open>
  Lines 402-414 and 434-440: the time variables, each with the text that replaces it.
  \<^verbatim>\<open>Math.floor(now.getTime() / 1000)\<close> is exact on the range of a date.
\<close>

definition time_vars :: "date \<Rightarrow> (string \<times> string) list" where
  "time_vars now =
     (let year = int_toString (getFullYear now);
          month = padStart 2 (CHR ''0'') (toString10 (getMonth now + 1));
          day = padStart 2 (CHR ''0'') (toString10 (getDate now));
          hours = padStart 2 (CHR ''0'') (toString10 (getHours now));
          minutes = padStart 2 (CHR ''0'') (toString10 (getMinutes now));
          seconds = padStart 2 (CHR ''0'') (toString10 (getSeconds now))
      in [(''{year}'', year),
          (''{month}'', month),
          (''{day}'', day),
          (''{date}'', year @ month @ day),
          (''{time}'', year @ month @ day @ hours @ minutes @ seconds),
          (''{timestamp}'', int_toString (getTime now div 1000)),
          (''{timestamp_nano}'', nanoString now)])"

text \<open>Lines 416-429 and 443-445: the file name variables.\<close>

definition name_vars :: "string \<Rightarrow> (string \<times> string) list" where
  "name_vars filename =
     [(''{originname}'', safeFilename filename),
      (''{originname_without_ext}'', originNameWithoutExt filename),
      (''{ext}'', extension filename)]"

text \<open>
  Lines 431-445: the replacements run one after the other, in this order, each on
  the result of the one before.
\<close>

definition replace_each :: "(string \<times> string) list \<Rightarrow> string \<Rightarrow> string" where
  "replace_each vars path = foldl (\<lambda>path (pat, repl). replace pat repl path) path vars"

definition fixed_vars :: "string \<Rightarrow> string \<Rightarrow> date \<Rightarrow> string" where
  "fixed_vars filename format now = replace_each (time_vars now @ name_vars filename) format"

text \<open>Lines 447-453: the random variables, a fresh draw at every match.\<close>

definition random_vars :: "string \<Rightarrow> entropy \<Rightarrow> js_error + (string \<times> entropy)" where
  "random_vars path rs =
     (case replace_fn ''{randomkey8}'' (generateRandomHex 8) path rs of
        Inl e \<Rightarrow> Inl e
      | Inr (path1, rs1) \<Rightarrow>
          (case replace_fn ''{randomkey16}'' (generateRandomHex 16) path1 rs1 of
             Inl e \<Rightarrow> Inl e
           | Inr (path2, rs2) \<Rightarrow> replace_fn ''{uuid}'' randomUUID path2 rs2))"

definition parsePath :: "string \<Rightarrow> string \<Rightarrow> date \<Rightarrow> entropy \<Rightarrow> js_error + (string \<times> entropy)" where
  "parsePath filename format now rs = random_vars (fixed_vars filename format now) rs"

section \<open>The upload endpoint of \<^verbatim>\<open>src/index.ts\<close>\<close>

text \<open>
  A \<^verbatim>\<open>File\<close> of the form data, a value of a form field (a string or a file),
  the request as the handler reads it, and the bindings of the Worker. \<open>None\<close> is
  \<^verbatim>\<open>undefined\<close>: a header or a field that is absent, a binding that is not set.
  \<^verbatim>\<open>parseBody\<close> may throw.
\<close>

record upload_file =
  file_name :: string
  file_size :: nat
  file_type :: string

datatype form_value = Text string | Blob upload_file

record request =
  authorization :: "string option"
  cf_connecting_ip :: "string option"
  parseBody :: "js_error + (string \<rightharpoonup> form_value)"

record env =
  AUTH_KEY :: "string option"
  PUBLIC_DOMAIN :: "string option"
  UPLOAD_PATH_FORMAT :: "string option"

text \<open>A JSON response: the status and the fields of the body.\<close>

datatype response = Json nat "(string \<times> string) list"

text \<open>What \<^verbatim>\<open>BUCKET.put\<close> receives beside the key.\<close>

record r2_object =
  stream :: upload_file
  contentType :: string
  originalName :: string
  uploadedAt :: string
  uploaderIp :: string

text \<open>\<^verbatim>\<open>v || d\<close> on strings: the empty string and \<^verbatim>\<open>undefined\<close> are falsy.\<close>

definition or_else :: "string option \<Rightarrow> string \<Rightarrow> string" where
  "or_else v d = (case v of None \<Rightarrow> d | Some s \<Rightarrow> if s = [] then d else s)"

definition error_text :: "js_error \<Rightarrow> string" where
  "error_text e = (case e of QuotaExceededError \<Rightarrow> ''QuotaExceededError'' | Thrown m \<Rightarrow> m)"

text \<open>
  Lines 68-83: the key. A custom path that is a string and not blank is trimmed and
  loses all its leading slashes (\<^verbatim>\<open>replace(/^\/+/, "")\<close>); otherwise the key is
  generated from the format. Then one leading slash is removed
  (\<^verbatim>\<open>path.substring(1)\<close>).
\<close>

definition default_format :: string where
  "default_format = ''{year}/{month}/{day}/{randomkey16}{ext}''"

definition resolve_key :: "env \<Rightarrow> form_value option \<Rightarrow> upload_file \<Rightarrow> date \<Rightarrow> entropy
    \<Rightarrow> js_error + (string \<times> entropy)" where
  "resolve_key e customPath f now rs =
     (case (case customPath of
              Some (Text p) \<Rightarrow>
                if trim p \<noteq> [] then Inr (dropWhile (\<lambda>c. c = CHR ''/'') (trim p), rs)
                else parsePath (file_name f) (or_else (UPLOAD_PATH_FORMAT e) default_format) now rs
            | _ \<Rightarrow> parsePath (file_name f) (or_else (UPLOAD_PATH_FORMAT e) default_format) now rs) of
        Inl err \<Rightarrow> Inl err
      | Inr (path, rs') \<Rightarrow> Inr (if prefix ''/'' path then drop 1 path else path, rs'))"

text \<open>
  The handler up to the call of the store: it either answers at once, or hands a key
  and an object to \<^verbatim>\<open>BUCKET.put\<close> and keeps the URL for the answer. Every
  exception thrown inside the \<^verbatim>\<open>try\<close> block is answered with status 500.
  \<open>isoNow\<close> is \<^verbatim>\<open>new Date().toISOString()\<close>.
\<close>

datatype step = Reply response | Put string r2_object string

definition max_size :: nat where
  "max_size = 100 * 1024 * 1024"

definition upload_failed :: "string \<Rightarrow> response" where
  "upload_failed e = Json 500 [(''msg'', ''Upload failed''), (''error'', e)]"

definition strip_slash :: "string \<Rightarrow> string" where
  "strip_slash s = (if s \<noteq> [] \<and> last s = CHR ''/'' then butlast s else s)"

definition upload :: "env \<Rightarrow> request \<Rightarrow> date \<Rightarrow> string \<Rightarrow> entropy \<Rightarrow> step \<times> entropy" where
  "upload e r now isoNow rs =
     (if AUTH_KEY e = None \<or> AUTH_KEY e = Some []
      then (Reply (Json 500 [(''msg'', ''Server configuration error: AUTH_KEY not set'')]), rs)
      else if authorization r \<noteq> AUTH_KEY e
      then (Reply (Json 401 [(''msg'', ''Unauthorized: Invalid AUTH_KEY'')]), rs)
      else
        (case parseBody r of
           Inl err \<Rightarrow> (Reply (upload_failed (error_text err)), rs)
         | Inr body \<Rightarrow>
             (case body ''file'' of
                Some (Blob f) \<Rightarrow>
                  if max_size < file_size f
                  then (Reply (Json 413 [(''msg'', ''File too large. Max size is 100MB'')]), rs)
                  else
                    (case resolve_key e (body ''customPath'') f now rs of
                       Inl err \<Rightarrow> (Reply (upload_failed (error_text err)), rs)
                     | Inr (path, rs') \<Rightarrow>
                         (Put path
                            \<lparr>stream = f,
                             contentType = or_else (Some (file_type f)) ''application/octet-stream'',
                             originalName = file_name f,
                             uploadedAt = isoNow,
                             uploaderIp = or_else (cf_connecting_ip r) ''unknown''\<rparr>
                            (strip_slash (or_else (PUBLIC_DOMAIN e) []) @ ''/'' @ path),
                          rs'))
              | _ \<Rightarrow> (Reply (Json 400 [(''msg'', ''No file uploaded'')]), rs))))"

text \<open>
  The store: a map from keys to objects. \<^verbatim>\<open>put\<close> writes, or throws the error
  \<open>fault\<close> when the store has one for this call.
\<close>

type_synonym bucket = "string \<rightharpoonup> r2_object"

definition put :: "string option \<Rightarrow> string \<Rightarrow> r2_object \<Rightarrow> bucket \<Rightarrow> js_error + bucket" where
  "put fault key obj b = (case fault of Some m \<Rightarrow> Inl (Thrown m) | None \<Rightarrow> Inr (b(key \<mapsto> obj)))"

text \<open>One request served: the answer, the store and the entropy left.\<close>

record arrival =
  req :: request
  clock :: date
  iso_at :: string
  fault :: "string option"

definition handle :: "env \<Rightarrow> arrival \<Rightarrow> bucket \<times> entropy \<Rightarrow> response \<times> (bucket \<times> entropy)" where
  "handle e a st =
     (case upload e (req a) (clock a) (iso_at a) (snd st) of
        (Reply resp, rs') \<Rightarrow> (resp, (fst st, rs'))
      | (Put key obj url, rs') \<Rightarrow>
          (case put (fault a) key obj (fst st) of
             Inl err \<Rightarrow> (upload_failed (error_text err), (fst st, rs'))
           | Inr b' \<Rightarrow> (Json 200 [(''msg'', ''success''), (''url'', url)], (b', rs'))))"

text \<open>Requests served one after the other; all that one leaves to the next is the state.\<close>

fun serve :: "env \<Rightarrow> arrival list \<Rightarrow> bucket \<times> entropy \<Rightarrow> response list \<times> (bucket \<times> entropy)" where
  "serve e [] st = ([], st)"
| "serve e (a # as) st =
     (case handle e a st of
        (resp, st') \<Rightarrow> (case serve e as st' of (resps, st'') \<Rightarrow> (resp # resps, st'')))"

definition status :: "response \<Rightarrow> nat" where
  "status resp = (case resp of Json code body \<Rightarrow> code)"

section \<open>The renaming rule of \<^verbatim>\<open>docs/bytego-rpd.md\<close>\<close>

text \<open>Python's \<^verbatim>\<open>xs[:n]\<close>: a negative \<^verbatim>\<open>n\<close> counts from the end.\<close>

definition slice_to :: "'a list \<Rightarrow> int \<Rightarrow> 'a list" where
  "slice_to xs n = (if n < 0 then take (nat (int (length xs) + n)) xs else take (nat n) xs)"

text \<open>
  Section 4.2, \<^verbatim>\<open>rename(file)\<close>. The file has a stem, an extension and a content;
  the digest function \<^verbatim>\<open>md5\<close> and the date path are not given there and are
  parameters. \<open>renamed\<close> is the file name, the part after the date.
\<close>

record named_file =
  stem :: string
  ext :: string
  content :: "byte list"

definition renamed :: "(byte list \<Rightarrow> string) \<Rightarrow> named_file \<Rightarrow> string" where
  "renamed md5 f =
     (let hash = slice_to (md5 (content f)) 8;
          ext = ext f;
          max_stem = 40 - int (length ext) - 9;
          stem = slice_to (stem f) max_stem
      in stem @ ''-'' @ hash @ ext)"

definition rename :: "(byte list \<Rightarrow> string) \<Rightarrow> string \<Rightarrow> named_file \<Rightarrow> string" where
  "rename md5 date f = date @ ''/'' @ renamed md5 f"

section \<open>Reading results, and inputs for the examples\<close>

text \<open>The key a step hands to the store, if it hands one; the path a resolution returns.\<close>

definition put_key :: "step \<Rightarrow> string option" where
  "put_key s = (case s of Reply resp \<Rightarrow> None | Put key obj url \<Rightarrow> Some key)"

definition key_of :: "js_error + (string \<times> entropy) \<Rightarrow> string option" where
  "key_of r = (case r of Inl e \<Rightarrow> None | Inr (path, rs) \<Rightarrow> Some path)"

text \<open>
  A clock reading (25 December 2024, 09:05:07), a Worker with its secret set, two files,
  and requests from the address 10.0.0.5.
\<close>

definition christmas :: date where
  "christmas = \<lparr>getFullYear = 2024, getMonth = 11, getDate = 25, getHours = 9, getMinutes = 5,
     getSeconds = 7, getTime = 1735117507123, nanoString = ''1735117507123000000''\<rparr>"

definition worker :: env where
  "worker = \<lparr>AUTH_KEY = Some ''secret'', PUBLIC_DOMAIN = Some ''https://cdn.example.com/'',
     UPLOAD_PATH_FORMAT = None\<rparr>"

definition photo :: upload_file where
  "photo = \<lparr>file_name = ''photo.png'', file_size = 2048, file_type = ''image/png''\<rparr>"

definition big_file :: upload_file where
  "big_file = \<lparr>file_name = ''movie.mkv'', file_size = 200 * 1024 * 1024,
     file_type = ''video/x-matroska''\<rparr>"

definition request_of :: "string \<Rightarrow> upload_file \<Rightarrow> request" where
  "request_of credential f = \<lparr>authorization = Some credential, cf_connecting_ip = Some ''10.0.0.5'',
     parseBody = Inr [''file'' \<mapsto> Blob f]\<rparr>"

definition traversal_request :: request where
  "traversal_request = \<lparr>authorization = Some ''secret'', cf_connecting_ip = Some ''10.0.0.5'',
     parseBody = Inr [''file'' \<mapsto> Blob photo, ''customPath'' \<mapsto> Text ''/../../etc/passwd'']\<rparr>"

definition arriving :: "request \<Rightarrow> arrival" where
  "arriving r = \<lparr>req = r, clock = christmas, iso_at = ''2024-12-25T09:05:07.123Z'', fault = None\<rparr>"

text \<open>
  A Worker whose path format starts with two slashes, one whose format is the safe name
  followed by the extension, and a file whose last dot lies in a directory component.
\<close>

definition slashed_worker :: env where
  "slashed_worker = \<lparr>AUTH_KEY = Some ''secret'', PUBLIC_DOMAIN = Some ''https://cdn.example.com/'',
     UPLOAD_PATH_FORMAT = Some ''//{originname}''\<rparr>"

definition ext_worker :: env where
  "ext_worker = \<lparr>AUTH_KEY = Some ''secret'', PUBLIC_DOMAIN = Some ''https://cdn.example.com/'',
     UPLOAD_PATH_FORMAT = Some ''{originname}{ext}''\<rparr>"

definition nested_file :: upload_file where
  "nested_file = \<lparr>file_name = ''dir.v2/file'', file_size = 2048, file_type = ''text/plain''\<rparr>"

text \<open>A digest function, and a file whose extension has 32 characters.\<close>

definition digest :: "byte list \<Rightarrow> string" where
  "digest bytes = ''a1b2c3d4e5f60718293a4b5c6d7e8f90''"

definition long_ext_file :: named_file where
  "long_ext_file = \<lparr>stem = ''report'', ext = ''.backup-of-the-quarterly-figures'', content = []\<rparr>"

section \<open>Occurrences of a placeholder\<close>

text \<open>
  Whether a text occurs in a path; the paths in which no random variable occurs; and the
  random and time variables of the path format.
\<close>

fun occurs :: "string \<Rightarrow> string \<Rightarrow> bool" where
  "occurs pat [] = (pat = [])"
| "occurs pat (c # cs) = (prefix pat (c # cs) \<or> occurs pat cs)"

definition no_random :: "string \<Rightarrow> bool" where
  "no_random path =
     (\<not> occurs ''{randomkey8}'' path \<and> \<not> occurs ''{randomkey16}'' path \<and> \<not> occurs ''{uuid}'' path)"

definition placeholders :: "string list" where
  "placeholders = [''{year}'', ''{month}'', ''{day}'', ''{date}'', ''{time}'', ''{timestamp}'',
     ''{timestamp_nano}'', ''{randomkey8}'', ''{randomkey16}'', ''{uuid}'']"

section \<open>Fresh draws, one for each occurrence\<close>

text \<open>
  The specification's reading of lines 449-450, for comparison. \<open>draw k n rs\<close> is the
  text of the \<open>n\<close>-th block of \<open>k\<close> bytes of the entropy stream; \<open>matches\<close>
  counts the matches the scan finds in a path; \<open>fill\<close> replaces the matches, the
  \<open>n\<close>-th one found by the \<open>n\<close>-th text of a given family.
\<close>

definition draw :: "nat \<Rightarrow> nat \<Rightarrow> entropy \<Rightarrow> string" where
  "draw k n rs = hex_of_bytes (map rs [n * k..<n * k + k])"

function matches :: "string \<Rightarrow> string \<Rightarrow> nat" where
  "matches pat [] = 0"
| "matches pat (c # cs) =
     (if pat \<noteq> [] \<and> prefix pat (c # cs)
      then Suc (matches pat (drop (length pat) (c # cs)))
      else matches pat cs)"
  by pat_completeness auto
termination
  by (relation "measure (\<lambda>(pat, s). length s)") auto

function fill :: "string \<Rightarrow> (nat \<Rightarrow> string) \<Rightarrow> nat \<Rightarrow> string \<Rightarrow> string" where
  "fill pat d n [] = []"
| "fill pat d n (c # cs) =
     (if pat \<noteq> [] \<and> prefix pat (c # cs)
      then d n @ fill pat d (Suc n) (drop (length pat) (c # cs))
      else c # fill pat d n cs)"
  by pat_completeness auto
termination
  by (relation "measure (\<lambda>(pat, d, n, s). length s)") auto

section \<open>Random hexadecimal strings\<close>

lemma digit_char_hex: "d < 16 \<Longrightarrow> is_lower_hex (digit_char d)"
proof -
  assume "d < 16"
  then have "d \<in> set [0..<16]"
    by simp
  moreover have "list_all (\<lambda>d. is_lower_hex (digit_char d)) [0..<16]"
    by (simp add: upt_rec digit_char_def is_lower_hex_def)
  ultimately show ?thesis
    unfolding list_all_iff by blast
qed

lemma toString16_byte:
  "n < 256 \<Longrightarrow>
     toString16 n = (if n < 16 then [digit_char n] else [digit_char (n div 16), digit_char (n mod 16)])"
  by (subst toString16.simps, subst toString16.simps) (simp add: div_less_iff_less_mult)

lemma hex_byte_length: "length (padStart 2 (CHR ''0'') (toString16 (unat (b :: byte)))) = 2"
proof -
  have "unat b < 256"
    using unsigned_less [of b] by simp
  then show ?thesis
    by (simp add: toString16_byte padStart_def)
qed

lemma hex_byte_chars: "list_all is_lower_hex (padStart 2 (CHR ''0'') (toString16 (unat (b :: byte))))"
proof -
  have lt: "unat b < 256"
    using unsigned_less [of b] by simp
  then have "unat b div 16 < 16"
    by (simp add: div_less_iff_less_mult)
  moreover have "is_lower_hex (CHR ''0'')"
    by (simp add: is_lower_hex_def)
  ultimately show ?thesis
    using lt by (simp add: toString16_byte padStart_def digit_char_hex)
qed

lemma hex_of_bytes_length: "length (hex_of_bytes bs) = 2 * length bs"
  by (induction bs) (simp_all add: hex_of_bytes_def hex_byte_length)

lemma hex_of_bytes_chars: "list_all is_lower_hex (hex_of_bytes bs)"
  by (induction bs) (simp_all add: hex_of_bytes_def hex_byte_chars)

lemma list_all_take: "list_all P xs \<Longrightarrow> list_all P (take n xs)"
  by (induction xs arbitrary: n) (auto simp: take_Cons split: nat.splits)


text \<open>
  C10, as amended. For every length \<open>n\<close> up to 131072, \<^verbatim>\<open>generateRandomHex(n)\<close>
  returns, and returns a string of exactly \<open>n\<close> characters, each a lowercase
  hexadecimal digit. For every larger length it returns no string: the array has more
  than 65536 bytes and the call throws.
\<close>

theorem generateRandomHex_length_hex:
  "(if n \<le> 131072
    then \<exists>h rs'. generateRandomHex n rs = Inr (h, rs') \<and> length h = n \<and> list_all is_lower_hex h
    else \<exists>e. generateRandomHex n rs = Inl e)"
proof (cases "n \<le> 131072")
  case True
  let ?k = "(n + 1) div 2"
  let ?h = "take n (hex_of_bytes (map rs [0..<?k]))"
  have k: "\<not> 65536 < ?k"
    using True by simp
  have run: "generateRandomHex n rs = Inr (?h, \<lambda>i. rs (i + ?k))"
    using k by (simp add: generateRandomHex_def getRandomValues_def)
  have "n \<le> 2 * ?k"
    by simp
  then have len: "length ?h = n"
    by (simp add: hex_of_bytes_length)
  have "list_all is_lower_hex ?h"
    by (rule list_all_take) (rule hex_of_bytes_chars)
  with run len have "\<exists>h rs'. generateRandomHex n rs = Inr (h, rs') \<and> length h = n \<and> list_all is_lower_hex h"
    by blast
  with True show ?thesis
    by (simp only: if_True)
next
  case False
  then have "65536 < (n + 1) div 2"
    by simp
  then have "generateRandomHex n rs = Inl QuotaExceededError"
    by (simp add: generateRandomHex_def getRandomValues_def)
  then have "\<exists>e. generateRandomHex n rs = Inl e"
    by blast
  with False show ?thesis
    by (simp only: if_False)
qed

theorem generateRandomHex_length_hex_witness:
  "(8 :: nat) \<le> 131072 \<and>
   (\<exists>h rs'. generateRandomHex 8 (\<lambda>i. 0) = Inr (h, rs') \<and> length h = 8 \<and> list_all is_lower_hex h)"
  using generateRandomHex_length_hex [of 8 "\<lambda>i. 0"] by simp

text \<open>
  C10 as stated fails at \<open>n = 131073\<close>: 65537 bytes are asked for, and the call throws.
\<close>

theorem generateRandomHex_quota_counterexample:
  "generateRandomHex 131073 (\<lambda>i. 0) = Inl QuotaExceededError"
  by (simp add: generateRandomHex_def getRandomValues_def)

section \<open>The sanitized file name\<close>

lemma split_not_Nil: "split c s \<noteq> []"
  by (induction s) (auto split: list.splits)

lemma split_no_separator: "c \<notin> set s \<Longrightarrow> split c s = [s]"
  by (induction s) auto

lemma split_separator: "c \<in> set s \<Longrightarrow> \<exists>seg seg' segs. split c s = seg # seg' # segs"
proof (induction s)
  case Nil
  then show ?case by simp
next
  case (Cons x xs)
  show ?case
  proof (cases "x = c")
    case True
    then show ?thesis
      using split_not_Nil [of c xs] by (cases "split c xs") auto
  next
    case False
    with Cons obtain seg seg' segs where "split c xs = seg # seg' # segs"
      by auto
    with False show ?thesis
      by simp
  qed
qed

lemma last_split_append: "last (split c (p @ c # q)) = last (split c q)"
proof (induction p)
  case Nil
  then show ?case
    by (simp add: split_not_Nil)
next
  case (Cons a p)
  obtain seg seg' segs where "split c (p @ c # q) = seg # seg' # segs"
    using split_separator [of c "p @ c # q"] by auto
  with Cons show ?case
    by auto
qed

lemma takeWhile_stop: "list_all P xs \<Longrightarrow> \<not> P y \<Longrightarrow> takeWhile P (xs @ y # ys) = xs"
  by (induction xs) auto

lemma last_split: "last (split c s) = rev (takeWhile (\<lambda>x. x \<noteq> c) (rev s))"
proof (cases "c \<in> set s")
  case False
  then have "takeWhile (\<lambda>x. x \<noteq> c) (rev s) = rev s"
    by (auto simp: takeWhile_eq_all_conv)
  then have "rev (takeWhile (\<lambda>x. x \<noteq> c) (rev s)) = s"
    by (simp only: rev_rev_ident)
  moreover have "last (split c s) = s"
    using False by (simp add: split_no_separator)
  ultimately show ?thesis
    by (simp only:)
next
  case True
  then obtain p q where s: "s = p @ c # q" and q: "c \<notin> set q"
    using split_list_last [of c s] by blast
  have "takeWhile (\<lambda>x. x \<noteq> c) (rev q @ c # rev p) = rev q"
    using q by (intro takeWhile_stop) (auto simp: list_all_iff)
  then show ?thesis
    using q by (simp add: s last_split_append split_no_separator)
qed

lemma takeWhile_twice: "takeWhile Q (takeWhile P xs) = takeWhile (\<lambda>x. P x \<and> Q x) xs"
  by (induction xs) auto

lemma last_segment_final: "last_segment fn = (if final_segment fn = [] then fn else final_segment fn)"
  by (simp add: last_segment_def final_segment_def pop_def split_not_Nil last_split takeWhile_twice)

lemma safe_underscore: "safe_char (CHR ''_'')"
  by (simp add: safe_char_def)

lemma sanitized_all: "list_all safe_char (map (\<lambda>c. if safe_char c then c else CHR ''_'') xs)"
  by (induction xs) (simp_all add: safe_underscore)

lemma sanitized_excludes:
  "\<not> safe_char c \<Longrightarrow> c \<notin> set (map (\<lambda>c. if safe_char c then c else CHR ''_'') xs)"
proof
  assume unsafe: "\<not> safe_char c"
    and "c \<in> set (map (\<lambda>c. if safe_char c then c else CHR ''_'') xs)"
  then have "safe_char c"
    using sanitized_all [of xs] unfolding list_all_iff by blast
  with unsafe show False
    by simp
qed

text \<open>
  C5, as amended. For every file name, the sanitized name substituted for
  \<^verbatim>\<open>{originname}\<close> has only characters of \<^verbatim>\<open>[A-Za-z0-9._-]\<close> and neither
  a forward nor a back slash. It is the final segment of the file name, or the whole
  file name when that segment is empty, with every character outside the class
  replaced by an underscore.
\<close>

theorem safeFilename_safe:
  "list_all safe_char (safeFilename fn)
   \<and> CHR ''/'' \<notin> set (safeFilename fn) \<and> CHR 0x5C \<notin> set (safeFilename fn)
   \<and> safeFilename fn =
       map (\<lambda>c. if safe_char c then c else CHR ''_'')
         (if final_segment fn = [] then fn else final_segment fn)"
proof -
  have sl: "\<not> safe_char (CHR ''/'')" and bs: "\<not> safe_char (CHR 0x5C)"
    by (simp_all add: safe_char_def)
  have "list_all safe_char (safeFilename fn)"
    unfolding safeFilename_def by (rule sanitized_all)
  moreover have "CHR ''/'' \<notin> set (safeFilename fn)"
    unfolding safeFilename_def by (rule sanitized_excludes [OF sl])
  moreover have "CHR 0x5C \<notin> set (safeFilename fn)"
    unfolding safeFilename_def by (rule sanitized_excludes [OF bs])
  moreover have "safeFilename fn =
      map (\<lambda>c. if safe_char c then c else CHR ''_'')
        (if final_segment fn = [] then fn else final_segment fn)"
    unfolding safeFilename_def by (simp only: last_segment_final)
  ultimately show ?thesis
    by (intro conjI)
qed

text \<open>
  C5 as stated fails at \<^verbatim>\<open>dir/\<close>: the final segment is empty, and the
  sanitized name is \<^verbatim>\<open>dir_\<close>, the directory component kept.
\<close>

theorem safeFilename_trailing_slash_counterexample:
  "final_segment ''dir/'' = [] \<and> safeFilename ''dir/'' = ''dir_''"
  by (simp add: final_segment_def safeFilename_def last_segment_def pop_def safe_char_def)

section \<open>Evaluations at the example inputs\<close>

lemma status_Json: "status (Json code body) = code"
  by (simp add: status_def)

lemma time_vars_christmas:
  "time_vars christmas =
     [(''{year}'', ''2024''), (''{month}'', ''12''), (''{day}'', ''25''), (''{date}'', ''20241225''),
      (''{time}'', ''20241225090507''), (''{timestamp}'', ''1735117507''),
      (''{timestamp_nano}'', ''1735117507123000000'')]"
  by (simp add: time_vars_def christmas_def int_toString_def toString10.simps padStart_def
      digit_char_def Let_def)

lemma fixed_photo:
  "fixed_vars ''photo.png'' default_format christmas = ''2024/12/25/{randomkey16}.png''"
  by (simp add: fixed_vars_def time_vars_christmas name_vars_def replace_each_def
      replace_def default_format_def extension_def)

lemma hex16_zero: "generateRandomHex 16 (\<lambda>i. 0) = Inr (''0000000000000000'', \<lambda>i. 0)"
  by (simp add: generateRandomHex_def getRandomValues_def hex_of_bytes_def toString16.simps
      padStart_def digit_char_def upt_rec)

lemma random_photo:
  "random_vars ''2024/12/25/{randomkey16}.png'' (\<lambda>i. 0)
     = Inr (''2024/12/25/0000000000000000.png'', \<lambda>i. 0)"
  by (simp add: random_vars_def hex16_zero)

lemma default_photo:
  "parsePath ''photo.png'' default_format christmas (\<lambda>i. 0)
     = Inr (''2024/12/25/0000000000000000.png'', \<lambda>i. 0)"
  by (simp only: parsePath_def fixed_photo random_photo)

section \<open>The override path\<close>

lemma dropWhile_slash_no_prefix: "\<not> prefix ''/'' (dropWhile (\<lambda>c. c = CHR ''/'') s)"
  by (induction s) auto

lemma resolve_key_custom:
  "trim p \<noteq> [] \<Longrightarrow>
     resolve_key e (Some (Text p)) f now rs = Inr (dropWhile (\<lambda>c. c = CHR ''/'') (trim p), rs)"
  by (simp add: resolve_key_def dropWhile_slash_no_prefix)

text \<open>
  C1, as amended. The handler has no check for traversal segments and no error for them.
  Every request that passes the credential check, carries a file within the size limit
  and supplies an override path that is not blank, whatever segments the path has, is
  handed to the store: the key is the trimmed override path without its leading slashes.
\<close>

theorem upload_custom_path_unchecked:
  assumes "AUTH_KEY e = Some k" and "k \<noteq> []" and "authorization r = Some k"
    and "parseBody r = Inr body" and "body ''file'' = Some (Blob f)"
    and "file_size f \<le> max_size"
    and "body ''customPath'' = Some (Text p)" and "trim p \<noteq> []"
  shows "put_key (fst (upload e r now isoNow rs)) = Some (dropWhile (\<lambda>c. c = CHR ''/'') (trim p))"
  using assms by (simp add: upload_def put_key_def resolve_key_custom)

theorem upload_custom_path_unchecked_witness:
  "put_key (fst (upload worker traversal_request christmas ''2024-12-25T09:05:07.123Z'' (\<lambda>i. 0)))
     = Some (dropWhile (\<lambda>c. c = CHR ''/'') (trim ''/../../etc/passwd''))"
  by (rule upload_custom_path_unchecked [where k = "''secret''" and f = photo
        and body = "[''file'' \<mapsto> Blob photo, ''customPath'' \<mapsto> Text ''/../../etc/passwd'']"])
     (simp_all add: worker_def traversal_request_def photo_def max_size_def trim_def is_space_def)

text \<open>
  C1 as stated fails at the override path \<^verbatim>\<open>/../../etc/passwd\<close>: the request is not
  rejected, the store is called with the key \<^verbatim>\<open>../../etc/passwd\<close>, and the answer
  is a success.
\<close>

theorem upload_traversal_counterexample:
  "put_key (fst (upload worker traversal_request christmas ''2024-12-25T09:05:07.123Z'' (\<lambda>i. 0)))
     = Some ''../../etc/passwd''
   \<and> fst (handle worker (arriving traversal_request) (Map.empty, \<lambda>i. 0))
     = Json 200 [(''msg'', ''success''), (''url'', ''https://cdn.example.com/../../etc/passwd'')]"
  by (simp add: put_key_def handle_def put_def upload_def worker_def traversal_request_def photo_def
      arriving_def max_size_def resolve_key_def trim_def is_space_def or_else_def strip_slash_def)

section \<open>The size limit\<close>

text \<open>
  C7. For every request whose file is larger than the limit, no write to the store is
  attempted and the store is unchanged. A request that passes the configuration and
  credential checks, which come before the size check, is answered 413, file too large;
  a request that does not pass them is answered 500 or 401 by those checks.
\<close>

theorem upload_too_large:
  assumes "parseBody r = Inr body" and "body ''file'' = Some (Blob f)" and "max_size < file_size f"
  shows "put_key (fst (upload e r now isoNow rs)) = None
    \<and> fst (snd (handle e \<lparr>req = r, clock = now, iso_at = isoNow, fault = flt\<rparr> (b, rs))) = b
    \<and> (if AUTH_KEY e = None \<or> AUTH_KEY e = Some [] \<or> authorization r \<noteq> AUTH_KEY e
        then status (fst (handle e \<lparr>req = r, clock = now, iso_at = isoNow, fault = flt\<rparr> (b, rs)))
               \<in> {500, 401}
        else fst (handle e \<lparr>req = r, clock = now, iso_at = isoNow, fault = flt\<rparr> (b, rs))
               = Json 413 [(''msg'', ''File too large. Max size is 100MB'')])"
  using assms by (simp add: upload_def put_key_def handle_def status_def)

theorem upload_too_large_witness:
  "fst (handle worker (arriving (request_of ''secret'' big_file)) (Map.empty, \<lambda>i. 0))
     = Json 413 [(''msg'', ''File too large. Max size is 100MB'')]
   \<and> put_key (fst (upload worker (request_of ''secret'' big_file) christmas
         ''2024-12-25T09:05:07.123Z'' (\<lambda>i. 0))) = None"
  using upload_too_large [of "request_of ''secret'' big_file" "[''file'' \<mapsto> Blob big_file]" big_file
      worker christmas "''2024-12-25T09:05:07.123Z''" "\<lambda>i. 0" None Map.empty]
  by (simp add: request_of_def big_file_def max_size_def worker_def arriving_def)

section \<open>The credential check over a sequence of requests\<close>

lemma serve_append:
  "serve e (hist @ [a]) st =
     (fst (serve e hist st) @ [fst (handle e a (snd (serve e hist st)))],
      snd (handle e a (snd (serve e hist st))))"
  by (induction hist arbitrary: st) (auto split: prod.splits)

lemma handle_status:
  "AUTH_KEY e = Some k \<Longrightarrow> k \<noteq> [] \<Longrightarrow>
     (if authorization (req a) = Some k
      then status (fst (handle e a st)) \<in> {200, 400, 413, 500}
      else fst (handle e a st) = Json 401 [(''msg'', ''Unauthorized: Invalid AUTH_KEY'')])"
  by (auto simp: handle_def upload_def status_def upload_failed_def put_def
      split: sum.splits option.splits form_value.splits prod.splits)

text \<open>
  C2, as amended. The handler keeps no failure counter and no ban. With the secret
  configured, after any sequence of earlier requests, from any address, a request with
  a wrong credential is answered 401, and a request with the correct credential is
  admitted: its answer is 200, 400, 413 or 500, never 401 and never 403. So the fourth
  request after three failures, with the correct credential, is admitted at once.
\<close>

theorem serve_keeps_no_ban:
  assumes "AUTH_KEY e = Some k" and "k \<noteq> []"
  shows "(if authorization (req a) = Some k
          then status (last (fst (serve e (hist @ [a]) st))) \<in> {200, 400, 413, 500}
          else last (fst (serve e (hist @ [a]) st)) = Json 401 [(''msg'', ''Unauthorized: Invalid AUTH_KEY'')])"
proof -
  have "last (fst (serve e (hist @ [a]) st)) = fst (handle e a (snd (serve e hist st)))"
    by (simp add: serve_append)
  then show ?thesis
    using handle_status [OF assms, of a "snd (serve e hist st)"] by (simp only:)
qed

theorem serve_keeps_no_ban_witness:
  "status (last (fst (serve worker
       ([arriving (request_of ''guess'' photo), arriving (request_of ''guess'' photo),
         arriving (request_of ''guess'' photo)] @ [arriving (request_of ''secret'' photo)])
       (Map.empty, \<lambda>i. 0)))) \<in> {200, 400, 413, 500}"
  using serve_keeps_no_ban [of worker "''secret''" "arriving (request_of ''secret'' photo)"
      "[arriving (request_of ''guess'' photo), arriving (request_of ''guess'' photo),
        arriving (request_of ''guess'' photo)]" "(Map.empty, \<lambda>i. 0)"]
  by (simp add: worker_def arriving_def request_of_def)

text \<open>
  C2 as stated fails at three requests with a wrong credential from 10.0.0.5 followed
  by one with the correct credential: the answers are 401, 401, 401 and 200.
\<close>

theorem serve_no_ban_counterexample:
  "map status (fst (serve worker
       [arriving (request_of ''guess'' photo), arriving (request_of ''guess'' photo),
        arriving (request_of ''guess'' photo), arriving (request_of ''secret'' photo)]
       (Map.empty, \<lambda>i. 0))) = [401, 401, 401, 200]"
proof -
  have key: "resolve_key worker None photo christmas (\<lambda>i. 0)
      = Inr (''2024/12/25/0000000000000000.png'', \<lambda>i. 0)"
    using default_photo by (simp add: resolve_key_def worker_def photo_def or_else_def)
  have bad: "handle worker (arriving (request_of ''guess'' photo)) st
      = (Json 401 [(''msg'', ''Unauthorized: Invalid AUTH_KEY'')], st)" for st
    by (simp add: handle_def upload_def worker_def arriving_def request_of_def)
  have good: "status (fst (handle worker (arriving (request_of ''secret'' photo)) (Map.empty, \<lambda>i. 0))) = 200"
    using key
    by (simp add: handle_def upload_def put_def status_def worker_def arriving_def request_of_def
        max_size_def photo_def)
  show ?thesis
    by (simp add: bad good status_Json case_prod_beta)
qed

section \<open>The leading slash of the key\<close>

lemma safeFilename_photo: "safeFilename ''photo.png'' = ''photo.png''"
  by (simp add: safeFilename_def last_segment_def pop_def safe_char_def)

lemma slashed_photo:
  "parsePath ''photo.png'' ''//{originname}'' christmas rs = Inr (''//photo.png'', rs)"
  by (simp add: parsePath_def fixed_vars_def time_vars_christmas name_vars_def replace_each_def
      replace_def safeFilename_photo random_vars_def)

text \<open>An override path never gives a key that begins with a slash.\<close>

lemma resolve_key_custom_no_slash:
  "trim p \<noteq> [] \<Longrightarrow> resolve_key e (Some (Text p)) f now rs = Inr (key, rs') \<Longrightarrow> \<not> prefix ''/'' key"
  using dropWhile_slash_no_prefix [of "trim p"] by (simp add: resolve_key_custom)

text \<open>
  C6 fails on a generated key. With the path format \<^verbatim>\<open>//{originname}\<close> and the file
  \<^verbatim>\<open>photo.png\<close>, \<^verbatim>\<open>parsePath\<close> returns \<^verbatim>\<open>//photo.png\<close>; lines 81-83 remove
  one slash, and the store is called with the key \<^verbatim>\<open>/photo.png\<close>.
\<close>

theorem upload_leading_slash_kept:
  "put_key (fst (upload slashed_worker (request_of ''secret'' photo) christmas
      ''2024-12-25T09:05:07.123Z'' (\<lambda>i. 0))) = Some ''/photo.png''"
  by (simp add: put_key_def upload_def slashed_worker_def request_of_def max_size_def
      resolve_key_def or_else_def slashed_photo photo_def)

section \<open>The extension\<close>

lemma extension_nested: "extension ''dir.v2/file'' = ''.v2/file''"
  by (simp add: extension_def)

lemma safeFilename_nested: "safeFilename ''dir.v2/file'' = ''file''"
  by (simp add: safeFilename_def last_segment_def pop_def safe_char_def)

lemma parsePath_nested:
  "parsePath ''dir.v2/file'' ''{originname}{ext}'' christmas rs = Inr (''file.v2/file'', rs)"
  by (simp add: parsePath_def fixed_vars_def time_vars_christmas name_vars_def replace_each_def
      replace_def safeFilename_nested extension_nested random_vars_def)

lemma lastIndexOf_absent: "c \<notin> set s \<Longrightarrow> lastIndexOf c s = None"
  by (induction s) auto

lemma lastIndexOf_last: "c \<notin> set q \<Longrightarrow> lastIndexOf c (p @ c # q) = Some (length p)"
  by (induction p) (simp_all add: lastIndexOf_absent)

lemma extension_absent: "CHR ''.'' \<notin> set fn \<Longrightarrow> extension fn = []"
  by (simp add: extension_def lastIndexOf_absent)

lemma extension_last_dot: "CHR ''.'' \<notin> set q \<Longrightarrow> extension (p @ CHR ''.'' # q) = CHR ''.'' # q"
  by (simp add: extension_def lastIndexOf_last)

lemma extension_suffix:
  "extension fn =
     (if CHR ''.'' \<in> set fn then CHR ''.'' # rev (takeWhile (\<lambda>c. c \<noteq> CHR ''.'') (rev fn)) else [])"
proof (cases "CHR ''.'' \<in> set fn")
  case False
  then show ?thesis
    by (simp add: extension_absent)
next
  case True
  then obtain p q where fn: "fn = p @ CHR ''.'' # q" and q: "CHR ''.'' \<notin> set q"
    using split_list_last [of "CHR ''.''" fn] by blast
  have "takeWhile (\<lambda>c. c \<noteq> CHR ''.'') (rev q @ CHR ''.'' # rev p) = rev q"
    using q by (intro takeWhile_stop) (auto simp: list_all_iff)
  then have "rev (takeWhile (\<lambda>c. c \<noteq> CHR ''.'') (rev fn)) = q"
    by (simp add: fn)
  with True show ?thesis
    by (simp add: fn extension_last_dot [OF q])
qed

lemma extension_in_directory:
  "CHR ''.'' \<notin> set v \<Longrightarrow> CHR ''.'' \<notin> set f \<Longrightarrow>
     extension (d @ ''.'' @ v @ ''/'' @ f) = ''.'' @ v @ ''/'' @ f"
  using extension_last_dot [of "v @ ''/'' @ f" d] by simp

lemma ext_var: "map_of (name_vars fn) ''{ext}'' = Some (extension fn)"
  by (simp add: name_vars_def)

lemma fixed_ext: "fixed_vars fn ''{ext}'' now = getSubstitution ''{ext}'' [] [] (extension fn)"
  by (simp add: fixed_vars_def time_vars_def name_vars_def replace_each_def replace_def Let_def)

text \<open>
  C9. For every file name, the extension is cut from the file name as it came, not from
  the sanitized name: it is the text from the last dot of the file name to its end, or
  empty when the file name has no dot, and it is what replaces \<^verbatim>\<open>{ext}\<close>. When
  the last dot lies in a directory component, the extension holds the separator after
  it. For the file name \<^verbatim>\<open>dir.v2/file\<close> the sanitized name is \<^verbatim>\<open>file\<close> and
  the extension is \<^verbatim>\<open>.v2/file\<close>: it has a path separator, a character outside
  \<^verbatim>\<open>[A-Za-z0-9._-]\<close>, and it reaches the generated path and the key handed to the
  store.
\<close>

theorem extension_unsanitized:
  "extension fn =
     (if CHR ''.'' \<in> set fn then CHR ''.'' # rev (takeWhile (\<lambda>c. c \<noteq> CHR ''.'') (rev fn)) else [])
   \<and> map_of (name_vars fn) ''{ext}'' = Some (extension fn)
   \<and> fixed_vars fn ''{ext}'' now = getSubstitution ''{ext}'' [] [] (extension fn)
   \<and> (CHR ''.'' \<notin> set v \<and> CHR ''.'' \<notin> set f \<longrightarrow>
        extension (d @ ''.'' @ v @ ''/'' @ f) = ''.'' @ v @ ''/'' @ f)
   \<and> extension ''dir.v2/file'' = ''.v2/file''
   \<and> safeFilename ''dir.v2/file'' = ''file''
   \<and> CHR ''/'' \<in> set (extension ''dir.v2/file'')
   \<and> \<not> list_all safe_char (extension ''dir.v2/file'')
   \<and> key_of (parsePath ''dir.v2/file'' ''{originname}{ext}'' christmas rs) = Some ''file.v2/file''
   \<and> put_key (fst (upload ext_worker (request_of ''secret'' nested_file) christmas
         ''2024-12-25T09:05:07.123Z'' rs)) = Some ''file.v2/file''"
proof -
  have c1: "extension ''dir.v2/file'' = ''.v2/file''"
    by (rule extension_nested)
  have c2: "safeFilename ''dir.v2/file'' = ''file''"
    by (rule safeFilename_nested)
  have c3: "CHR ''/'' \<in> set (extension ''dir.v2/file'')"
    by (simp add: extension_nested)
  have c4: "\<not> list_all safe_char (extension ''dir.v2/file'')"
    by (simp add: extension_nested safe_char_def)
  have c5: "key_of (parsePath ''dir.v2/file'' ''{originname}{ext}'' christmas rs) = Some ''file.v2/file''"
    by (simp add: parsePath_nested key_of_def)
  have c6: "put_key (fst (upload ext_worker (request_of ''secret'' nested_file) christmas
         ''2024-12-25T09:05:07.123Z'' rs)) = Some ''file.v2/file''"
    by (simp add: parsePath_nested put_key_def upload_def ext_worker_def request_of_def
        nested_file_def max_size_def resolve_key_def or_else_def)
  have g: "CHR ''.'' \<notin> set v \<and> CHR ''.'' \<notin> set f \<longrightarrow>
        extension (d @ ''.'' @ v @ ''/'' @ f) = ''.'' @ v @ ''/'' @ f"
    using extension_in_directory [of v f d] by blast
  show ?thesis
    by (intro conjI) (rule extension_suffix ext_var fixed_ext g c1 c2 c3 c4 c5 c6)+
qed

theorem extension_unsanitized_witness:
  "CHR ''.'' \<notin> set ''v2'' \<and> CHR ''.'' \<notin> set ''file''
   \<and> extension (''dir'' @ ''.'' @ ''v2'' @ ''/'' @ ''file'') = ''.'' @ ''v2'' @ ''/'' @ ''file''"
proof -
  have no_dot: "CHR ''.'' \<notin> set ''v2'' \<and> CHR ''.'' \<notin> set ''file''"
    by simp
  have "CHR ''.'' \<notin> set ''v2'' \<and> CHR ''.'' \<notin> set ''file'' \<longrightarrow>
      extension (''dir'' @ ''.'' @ ''v2'' @ ''/'' @ ''file'') = ''.'' @ ''v2'' @ ''/'' @ ''file''"
    using extension_unsanitized [of "''dir.v2/file''" christmas "''v2''" "''file''" "''dir''" "\<lambda>i. 0"]
    by (elim conjE)
  with no_dot show ?thesis
    by blast
qed

section \<open>The length of a renamed file\<close>

text \<open>With an extension of at most 31 characters the name has at most 40.\<close>

lemma renamed_bounded:
  "length (ext f) \<le> 31 \<Longrightarrow> length (renamed md5 f) \<le> 40"
  by (simp add: renamed_def slice_to_def Let_def)

lemma renamed_scenario:
  "renamed digest \<lparr>stem = ''a-very-long-original-file-name-that-exceeds-limits'', ext = ''.pdf'',
      content = []\<rparr> = ''a-very-long-original-file-n-a1b2c3d4.pdf''
   \<and> length ''a-very-long-original-file-n-a1b2c3d4.pdf'' = 40"
  by (simp add: renamed_def digest_def slice_to_def)

text \<open>
  C3 fails on an extension of 32 characters. \<^verbatim>\<open>max_stem\<close> is \<open>-1\<close>, the slice
  \<^verbatim>\<open>stem[:-1]\<close> drops the last character of the stem instead of emptying it, and
  the name has 46 characters; with an empty stem it would still have 41.
\<close>

theorem renamed_long_extension:
  "length (ext long_ext_file) = 32
   \<and> renamed digest long_ext_file = ''repor-a1b2c3d4.backup-of-the-quarterly-figures''
   \<and> length (renamed digest long_ext_file) = 46"
  by (simp add: renamed_def long_ext_file_def digest_def slice_to_def)

section \<open>Resolving the same inputs twice\<close>

lemma replace_fn_no_match: "\<not> occurs pat s \<Longrightarrow> replace_fn pat f s st = Inr (s, st)"
  by (induction s) simp_all

lemma random_vars_no_match: "no_random path \<Longrightarrow> random_vars path rs = Inr (path, rs)"
  by (simp add: no_random_def random_vars_def replace_fn_no_match)

text \<open>
  C8, as amended. When no random variable occurs in the path as it stands after the time
  and file name variables are replaced, path resolution returns that path whatever the
  entropy source delivers: two resolutions of the same file name and format at the same
  clock reading give the same key. The condition is on the path after those
  replacements, not on the format alone.
\<close>

theorem parsePath_idempotent:
  assumes "no_random (fixed_vars filename format now)"
  shows "key_of (parsePath filename format now rs) = Some (fixed_vars filename format now)
    \<and> key_of (parsePath filename format now rs) = key_of (parsePath filename format now rs')"
  using assms by (simp add: parsePath_def random_vars_no_match key_of_def)

lemma fixed_originname: "fixed_vars ''photo.png'' ''{originname}'' christmas = ''photo.png''"
  by (simp add: fixed_vars_def time_vars_christmas name_vars_def replace_each_def
      replace_def safeFilename_photo)

theorem parsePath_idempotent_witness:
  "no_random (fixed_vars ''photo.png'' ''{originname}'' christmas)
   \<and> key_of (parsePath ''photo.png'' ''{originname}'' christmas (\<lambda>i. 0)) = Some ''photo.png''
   \<and> key_of (parsePath ''photo.png'' ''{originname}'' christmas (\<lambda>i. 0))
       = key_of (parsePath ''photo.png'' ''{originname}'' christmas (\<lambda>i. 255))"
proof -
  have nr: "no_random (fixed_vars ''photo.png'' ''{originname}'' christmas)"
    by (simp add: fixed_originname no_random_def)
  show ?thesis
    using nr parsePath_idempotent [OF nr, of "\<lambda>i. 0" "\<lambda>i. 255"]
    by (auto simp: fixed_originname)
qed

lemma hex8_zero: "generateRandomHex 8 (\<lambda>i. 0) = Inr (''00000000'', \<lambda>i. 0)"
  by (simp add: generateRandomHex_def getRandomValues_def hex_of_bytes_def toString16.simps
      padStart_def digit_char_def upt_rec)

lemma hex8_ones: "generateRandomHex 8 (\<lambda>i. 255) = Inr (''ffffffff'', \<lambda>i. 255)"
  by (simp add: generateRandomHex_def getRandomValues_def hex_of_bytes_def toString16.simps
      padStart_def digit_char_def upt_rec)

lemma fixed_readme: "fixed_vars ''README'' ''{rand{ext}omkey8}'' christmas = ''{randomkey8}''"
  by (simp add: fixed_vars_def time_vars_christmas name_vars_def replace_each_def
      replace_def extension_def)

text \<open>
  C8 as stated fails at the format \<^verbatim>\<open>{rand{ext}omkey8}\<close> and the file name
  \<^verbatim>\<open>README\<close>. No random and no time variable occurs in the format; the empty
  extension replaces \<^verbatim>\<open>{ext}\<close> and leaves \<^verbatim>\<open>{randomkey8}\<close>, which is then
  replaced by a fresh draw, so two resolutions differ with the bytes drawn.
\<close>

theorem parsePath_spliced_placeholder_counterexample:
  "list_all (\<lambda>p. \<not> occurs p ''{rand{ext}omkey8}'') placeholders
   \<and> key_of (parsePath ''README'' ''{rand{ext}omkey8}'' christmas (\<lambda>i. 0)) = Some ''00000000''
   \<and> key_of (parsePath ''README'' ''{rand{ext}omkey8}'' christmas (\<lambda>i. 255)) = Some ''ffffffff''"
  by (simp add: placeholders_def parsePath_def fixed_readme random_vars_def hex8_zero hex8_ones key_of_def)

section \<open>Fresh draws\<close>

lemma generateRandomHex_even:
  "k \<le> 65536 \<Longrightarrow>
     generateRandomHex (2 * k) rs = Inr (hex_of_bytes (map rs [0..<k]), \<lambda>i. rs (i + k))"
  by (simp add: generateRandomHex_def getRandomValues_def hex_of_bytes_length)

lemma map_shifted: "map (\<lambda>i. rs (i + m)) [0..<k] = map rs [m..<m + k]"
proof -
  have "map rs (map (\<lambda>i. i + m) [0..<k]) = map rs [m..<m + k]"
    by (simp only: map_add_upt add.commute)
  then show ?thesis
    by (simp add: comp_def)
qed

lemma draw_shifted: "hex_of_bytes (map (\<lambda>i. rs (i + j * k)) [0..<k]) = draw k j rs"
  by (simp only: draw_def map_shifted)

lemma generateRandomHex_at:
  "k \<le> 65536 \<Longrightarrow>
     generateRandomHex (2 * k) (\<lambda>i. rs (i + j * k)) = Inr (draw k j rs, \<lambda>i. rs (i + Suc j * k))"
proof -
  assume "k \<le> 65536"
  then have "generateRandomHex (2 * k) (\<lambda>i. rs (i + j * k))
      = Inr (hex_of_bytes (map (\<lambda>i. rs (i + j * k)) [0..<k]), \<lambda>i. rs (i + k + j * k))"
    by (rule generateRandomHex_even)
  moreover have "(\<lambda>i. rs (i + k + j * k)) = (\<lambda>i. rs (i + Suc j * k))"
    by (simp add: add.assoc)
  ultimately show ?thesis
    by (simp only: draw_shifted)
qed

lemma hex_byte_digits:
  "padStart 2 (CHR ''0'') (toString16 (unat (b :: byte)))
     = [digit_char (unat b div 16), digit_char (unat b mod 16)]"
proof -
  have "unat b < 256"
    using unsigned_less [of b] by simp
  then show ?thesis
    by (simp add: toString16_byte padStart_def digit_char_def)
qed

lemma digit_char_inj: "a < 16 \<Longrightarrow> b < 16 \<Longrightarrow> digit_char a = digit_char b \<Longrightarrow> a = b"
proof -
  assume "a < 16" and "b < 16" and "digit_char a = digit_char b"
  moreover have "distinct ''0123456789abcdef''"
    by simp
  ultimately show ?thesis
    unfolding digit_char_def by (simp add: nth_eq_iff_index_eq)
qed

lemma hex_byte_inj:
  assumes "padStart 2 (CHR ''0'') (toString16 (unat (b :: byte)))
     = padStart 2 (CHR ''0'') (toString16 (unat (c :: byte)))"
  shows "b = c"
proof -
  have b: "unat b < 256" and c: "unat c < 256"
    using unsigned_less [of b] unsigned_less [of c] by simp_all
  then have hi: "unat b div 16 < 16" "unat c div 16 < 16"
    by (simp_all add: div_less_iff_less_mult)
  have lo: "unat b mod 16 < 16" "unat c mod 16 < 16"
    by simp_all
  from assms have eq: "digit_char (unat b div 16) = digit_char (unat c div 16)"
    "digit_char (unat b mod 16) = digit_char (unat c mod 16)"
    by (simp_all add: hex_byte_digits)
  have "unat b div 16 = unat c div 16"
    by (rule digit_char_inj [OF hi eq(1)])
  moreover have "unat b mod 16 = unat c mod 16"
    by (rule digit_char_inj [OF lo eq(2)])
  ultimately have "unat b div 16 = unat c div 16" and "unat b mod 16 = unat c mod 16"
    by simp_all
  then have "unat b = unat c"
    by (metis div_mult_mod_eq)
  then show ?thesis
    by (simp add: word_unat_eq_iff)
qed

lemma hex_of_bytes_inj:
  "length bs = length cs \<Longrightarrow> hex_of_bytes bs = hex_of_bytes cs \<Longrightarrow> bs = cs"
proof (induction bs cs rule: list_induct2)
  case Nil
  then show ?case by simp
next
  case (Cons b bs c cs)
  from Cons.prems have "padStart 2 (CHR ''0'') (toString16 (unat b)) @ hex_of_bytes bs
      = padStart 2 (CHR ''0'') (toString16 (unat c)) @ hex_of_bytes cs"
    by (simp add: hex_of_bytes_def)
  then have "padStart 2 (CHR ''0'') (toString16 (unat b)) = padStart 2 (CHR ''0'') (toString16 (unat c))"
    and "hex_of_bytes bs = hex_of_bytes cs"
    by (simp_all add: hex_byte_length)
  then show ?case
    using Cons.IH by (simp add: hex_byte_inj)
qed

lemma draw_eq_iff: "(draw k i rs = draw k j rs) = (map rs [i * k..<i * k + k] = map rs [j * k..<j * k + k])"
  unfolding draw_def by (auto dest: hex_of_bytes_inj [rotated])

lemma replace_fn_fill:
  assumes k: "k \<le> 65536"
  shows "replace_fn pat (generateRandomHex (2 * k)) s (\<lambda>i. rs (i + n * k))
     = Inr (fill pat (\<lambda>m. draw k m rs) n s, \<lambda>i. rs (i + (n + matches pat s) * k))"
proof (induction pat "\<lambda>m. draw k m rs" n s rule: fill.induct)
  case (1 pat n)
  then show ?case by simp
next
  case (2 pat n c cs)
  show ?case
  proof (cases "pat \<noteq> [] \<and> prefix pat (c # cs)")
    case True
    have "replace_fn pat (generateRandomHex (2 * k)) (drop (length pat) (c # cs))
            (\<lambda>i. rs (i + Suc n * k))
        = Inr (fill pat (\<lambda>m. draw k m rs) (Suc n) (drop (length pat) (c # cs)),
               \<lambda>i. rs (i + (Suc n + matches pat (drop (length pat) (c # cs))) * k))"
      by (rule "2.hyps"(1) [OF True])
    then show ?thesis
      unfolding replace_fn.simps(2) fill.simps(2) matches.simps(2) if_P [OF True]
      by (simp only: generateRandomHex_at [OF k] sum.case prod.case add_Suc_right add_Suc)
  next
    case False
    have "replace_fn pat (generateRandomHex (2 * k)) cs (\<lambda>i. rs (i + n * k))
        = Inr (fill pat (\<lambda>m. draw k m rs) n cs, \<lambda>i. rs (i + (n + matches pat cs) * k))"
      by (rule "2.hyps"(2) [OF False])
    then show ?thesis
      unfolding replace_fn.simps(2) fill.simps(2) matches.simps(2) if_not_P [OF False]
      by (simp only: sum.case prod.case)
  qed
qed

lemma replace_fn_fill_start:
  "k \<le> 65536 \<Longrightarrow>
     replace_fn pat (generateRandomHex (2 * k)) s rs
       = Inr (fill pat (\<lambda>m. draw k m rs) 0 s, \<lambda>i. rs (i + matches pat s * k))"
  using replace_fn_fill [of k pat s rs 0] by simp

text \<open>
  C4. In every evaluation of \<^verbatim>\<open>parsePath\<close>, on any file name and format, each
  occurrence of \<^verbatim>\<open>{randomkey8}\<close> is replaced by the text of its own block of 4 fresh
  bytes, the \<open>n\<close>-th occurrence by the \<open>n\<close>-th block of the stream, and then each
  occurrence of \<^verbatim>\<open>{randomkey16}\<close> by the text of its own block of 8 bytes of the
  stream that is left. The blocks of two occurrences do not overlap, and the two texts
  are equal exactly when the bytes drawn for them are equal.
\<close>

theorem parsePath_fresh_draws:
  "parsePath filename format now rs =
     (let s0 = fixed_vars filename format now;
          s1 = fill ''{randomkey8}'' (\<lambda>n. draw 4 n rs) 0 s0;
          rs1 = (\<lambda>i. rs (i + matches ''{randomkey8}'' s0 * 4));
          s2 = fill ''{randomkey16}'' (\<lambda>n. draw 8 n rs1) 0 s1;
          rs2 = (\<lambda>i. rs1 (i + matches ''{randomkey16}'' s1 * 8))
      in replace_fn ''{uuid}'' randomUUID s2 rs2)
   \<and> (draw k i rs = draw k j rs) = (map rs [i * k..<i * k + k] = map rs [j * k..<j * k + k])"
proof -
  have eight: "replace_fn pat (generateRandomHex 8) s st
      = Inr (fill pat (\<lambda>m. draw 4 m st) 0 s, \<lambda>i. st (i + matches pat s * 4))" for pat s st
    using replace_fn_fill_start [of 4 pat s st] by simp
  have sixteen: "replace_fn pat (generateRandomHex 16) s st
      = Inr (fill pat (\<lambda>m. draw 8 m st) 0 s, \<lambda>i. st (i + matches pat s * 8))" for pat s st
    using replace_fn_fill_start [of 8 pat s st] by simp
  have "parsePath filename format now rs =
     (let s0 = fixed_vars filename format now;
          s1 = fill ''{randomkey8}'' (\<lambda>n. draw 4 n rs) 0 s0;
          rs1 = (\<lambda>i. rs (i + matches ''{randomkey8}'' s0 * 4));
          s2 = fill ''{randomkey16}'' (\<lambda>n. draw 8 n rs1) 0 s1;
          rs2 = (\<lambda>i. rs1 (i + matches ''{randomkey16}'' s1 * 8))
      in replace_fn ''{uuid}'' randomUUID s2 rs2)"
    unfolding parsePath_def random_vars_def Let_def
    by (simp only: eight sixteen sum.case prod.case)
  then show ?thesis
    by (simp only: draw_eq_iff simp_thms)
qed

lemma fixed_twice:
  "fixed_vars ''photo.png'' ''{year}/{randomkey8}-{randomkey8}{ext}'' christmas
     = ''2024/{randomkey8}-{randomkey8}.png''"
  by (simp add: fixed_vars_def time_vars_christmas name_vars_def replace_each_def
      replace_def extension_def)

lemma draws_counting:
  "draw 4 0 (\<lambda>i. of_nat i) = ''00010203''" "draw 4 (Suc 0) (\<lambda>i. of_nat i) = ''04050607''"
  by (simp_all add: draw_def hex_of_bytes_def toString16.simps padStart_def digit_char_def upt_rec)

text \<open>
  At the format \<^verbatim>\<open>{year}/{randomkey8}-{randomkey8}{ext}\<close>, with the entropy stream
  0, 1, 2, ..., the two occurrences are replaced by different texts.
\<close>

theorem parsePath_fresh_draws_witness:
  "key_of (parsePath ''photo.png'' ''{year}/{randomkey8}-{randomkey8}{ext}'' christmas (\<lambda>i. of_nat i))
     = Some ''2024/00010203-04050607.png''"
proof -
  have "parsePath ''photo.png'' ''{year}/{randomkey8}-{randomkey8}{ext}'' christmas (\<lambda>i. of_nat i) =
     (let s0 = fixed_vars ''photo.png'' ''{year}/{randomkey8}-{randomkey8}{ext}'' christmas;
          s1 = fill ''{randomkey8}'' (\<lambda>n. draw 4 n (\<lambda>i. of_nat i)) 0 s0;
          rs1 = (\<lambda>i. of_nat (i + matches ''{randomkey8}'' s0 * 4));
          s2 = fill ''{randomkey16}'' (\<lambda>n. draw 8 n rs1) 0 s1;
          rs2 = (\<lambda>i. rs1 (i + matches ''{randomkey16}'' s1 * 8))
      in replace_fn ''{uuid}'' randomUUID s2 rs2)"
    using parsePath_fresh_draws [of "''photo.png''" "''{year}/{randomkey8}-{randomkey8}{ext}''"
        christmas "\<lambda>i. of_nat i" 4 0 1]
    by (rule conjunct1)
  then show ?thesis
    by (simp add: fixed_twice draws_counting key_of_def)
qed

end
